theory Spec2Isabelle
  imports
    Main
    "HOL-Library.Char_ord"
    "HOL-Library.List_Lexorder"
    "HOL-Library.Product_Lexorder"
    "HOL-Library.Multiset"
begin

unbundle bit_operations_syntax

section \<open>Hash functions of the standard library\<close>

text \<open>
  \<^verbatim>\<open>main.py\<close> seeds the daily selection with \<^verbatim>\<open>hashlib.sha256\<close> and \<^verbatim>\<open>draw.py\<close> seeds its
  sampler with \<^verbatim>\<open>hashlib.md5\<close>. Both are modelled on byte lists (\<open>nat\<close> below 256) with 32-bit
  words as \<open>nat\<close> and the wrap-around written out. A date string is an Isabelle \<open>string\<close>: the
  bytes that \<^verbatim>\<open>date_str.encode()\<close> produces.
\<close>

definition add32 :: "nat \<Rightarrow> nat \<Rightarrow> nat" where
  "add32 x y = (x + y) mod 4294967296"

definition not32 :: "nat \<Rightarrow> nat" where
  "not32 x = 4294967295 - x"

definition rotr :: "nat \<Rightarrow> nat \<Rightarrow> nat" where
  "rotr n x = x div 2 ^ n + (x mod 2 ^ n) * 2 ^ (32 - n)"

definition rotl :: "nat \<Rightarrow> nat \<Rightarrow> nat" where
  "rotl n x = (x * 2 ^ n) mod 4294967296 + x div 2 ^ (32 - n)"

definition be32 :: "nat \<Rightarrow> nat list" where
  "be32 w = [w div 16777216 mod 256, w div 65536 mod 256, w div 256 mod 256, w mod 256]"

definition le32 :: "nat \<Rightarrow> nat list" where
  "le32 w = [w mod 256, w div 256 mod 256, w div 65536 mod 256, w div 16777216 mod 256]"

definition be64 :: "nat \<Rightarrow> nat list" where
  "be64 n = map (\<lambda>i. n div 256 ^ i mod 256) [7, 6, 5, 4, 3, 2, 1, 0]"

definition le64 :: "nat \<Rightarrow> nat list" where
  "le64 n = map (\<lambda>i. n div 256 ^ i mod 256) [0, 1, 2, 3, 4, 5, 6, 7]"

fun be_words :: "nat list \<Rightarrow> nat list" where
  "be_words (a # b # c # d # r) = (((a * 256 + b) * 256 + c) * 256 + d) # be_words r"
| "be_words _ = []"

fun le_words :: "nat list \<Rightarrow> nat list" where
  "le_words (a # b # c # d # r) = (((d * 256 + c) * 256 + b) * 256 + a) # le_words r"
| "le_words _ = []"

subsection \<open>SHA-256 (FIPS 180-4)\<close>

definition K256 :: "nat list" where
  "K256 = [
   1116352408, 1899447441, 3049323471, 3921009573, 961987163, 1508970993, 2453635748, 2870763221,
   3624381080, 310598401, 607225278, 1426881987, 1925078388, 2162078206, 2614888103, 3248222580,
   3835390401, 4022224774, 264347078, 604807628, 770255983, 1249150122, 1555081692, 1996064986,
   2554220882, 2821834349, 2952996808, 3210313671, 3336571891, 3584528711, 113926993, 338241895,
   666307205, 773529912, 1294757372, 1396182291, 1695183700, 1986661051, 2177026350, 2456956037,
   2730485921, 2820302411, 3259730800, 3345764771, 3516065817, 3600352804, 4094571909, 275423344,
   430227734, 506948616, 659060556, 883997877, 958139571, 1322822218, 1537002063, 1747873779,
   1955562222, 2024104815, 2227730452, 2361852424, 2428436474, 2756734187, 3204031479, 3329325298]"

definition H256 :: "nat list" where
  "H256 = [1779033703, 3144134277, 1013904242, 2773480762,
           1359893119, 2600822924, 528734635, 1541459225]"

definition Ch :: "nat \<Rightarrow> nat \<Rightarrow> nat \<Rightarrow> nat" where
  "Ch x y z = (x AND y) XOR (not32 x AND z)"

definition Maj :: "nat \<Rightarrow> nat \<Rightarrow> nat \<Rightarrow> nat" where
  "Maj x y z = (x AND y) XOR (x AND z) XOR (y AND z)"

definition bsig0 :: "nat \<Rightarrow> nat" where
  "bsig0 x = rotr 2 x XOR rotr 13 x XOR rotr 22 x"

definition bsig1 :: "nat \<Rightarrow> nat" where
  "bsig1 x = rotr 6 x XOR rotr 11 x XOR rotr 25 x"

definition ssig0 :: "nat \<Rightarrow> nat" where
  "ssig0 x = rotr 7 x XOR rotr 18 x XOR x div 2 ^ 3"

definition ssig1 :: "nat \<Rightarrow> nat" where
  "ssig1 x = rotr 17 x XOR rotr 19 x XOR x div 2 ^ 10"

text \<open>Padding: the byte 128, zero bytes up to 56 modulo 64, the bit length on 8 bytes.\<close>

definition sha_pad :: "nat list \<Rightarrow> nat list" where
  "sha_pad m = m @ [128] @ replicate ((119 - length m mod 64) mod 64) 0 @ be64 (8 * length m)"

text \<open>
  The message schedule is kept as a sliding window of the last 16 words: \<open>w ! 0\<close> is the word
  of the current round, and the word 16 rounds ahead is appended.
\<close>

definition next_w :: "nat list \<Rightarrow> nat" where
  "next_w w = add32 (add32 (ssig1 (w ! 14)) (w ! 9)) (add32 (ssig0 (w ! 1)) (w ! 0))"

fun sha_step :: "nat \<Rightarrow> nat \<Rightarrow> nat list \<Rightarrow> nat list" where
  "sha_step k w [a, b, c, d, e, f, g, h] =
     [add32 (add32 (add32 h (bsig1 e)) (add32 (Ch e f g) (add32 k w)))
            (add32 (bsig0 a) (Maj a b c)),
      a, b, c,
      add32 d (add32 (add32 h (bsig1 e)) (add32 (Ch e f g) (add32 k w))),
      e, f, g]"
| "sha_step k w s = s"

fun sha_rounds :: "nat list \<Rightarrow> nat list \<Rightarrow> nat list \<Rightarrow> nat list" where
  "sha_rounds [] w s = s"
| "sha_rounds (k # ks) w s = sha_rounds ks (tl w @ [next_w w]) (sha_step k (hd w) s)"

definition sha_compress :: "nat list \<Rightarrow> nat list \<Rightarrow> nat list" where
  "sha_compress hs blk = map2 add32 hs (sha_rounds K256 blk hs)"

function sha_blocks :: "nat list \<Rightarrow> nat list \<Rightarrow> nat list" where
  "sha_blocks ws hs =
     (if length ws < 16 then hs else sha_blocks (drop 16 ws) (sha_compress hs (take 16 ws)))"
  by pat_completeness auto
termination
  by (relation "measure (\<lambda>(ws, hs). length ws)") auto

declare sha_blocks.simps [simp del]

definition sha256 :: "nat list \<Rightarrow> nat list" where
  "sha256 m = concat (map be32 (sha_blocks (be_words (sha_pad m)) H256))"

subsection \<open>MD5 (RFC 1321)\<close>

definition K_md5 :: "nat list" where
  "K_md5 = [
   3614090360, 3905402710, 606105819, 3250441966, 4118548399, 1200080426, 2821735955, 4249261313,
   1770035416, 2336552879, 4294925233, 2304563134, 1804603682, 4254626195, 2792965006, 1236535329,
   4129170786, 3225465664, 643717713, 3921069994, 3593408605, 38016083, 3634488961, 3889429448,
   568446438, 3275163606, 4107603335, 1163531501, 2850285829, 4243563512, 1735328473, 2368359562,
   4294588738, 2272392833, 1839030562, 4259657740, 2763975236, 1272893353, 4139469664, 3200236656,
   681279174, 3936430074, 3572445317, 76029189, 3654602809, 3873151461, 530742520, 3299628645,
   4096336452, 1126891415, 2878612391, 4237533241, 1700485571, 2399980690, 4293915773, 2240044497,
   1873313359, 4264355552, 2734768916, 1309151649, 4149444226, 3174756917, 718787259, 3951481745]"

definition S_md5 :: "nat list" where
  "S_md5 = [
   7, 12, 17, 22, 7, 12, 17, 22, 7, 12, 17, 22, 7, 12, 17, 22,
   5, 9, 14, 20, 5, 9, 14, 20, 5, 9, 14, 20, 5, 9, 14, 20,
   4, 11, 16, 23, 4, 11, 16, 23, 4, 11, 16, 23, 4, 11, 16, 23,
   6, 10, 15, 21, 6, 10, 15, 21, 6, 10, 15, 21, 6, 10, 15, 21]"

definition H_md5 :: "nat list" where
  "H_md5 = [1732584193, 4023233417, 2562383102, 271733878]"

definition md5_pad :: "nat list \<Rightarrow> nat list" where
  "md5_pad m = m @ [128] @ replicate ((119 - length m mod 64) mod 64) 0 @ le64 (8 * length m)"

definition md5_f :: "nat \<Rightarrow> nat \<Rightarrow> nat \<Rightarrow> nat \<Rightarrow> nat" where
  "md5_f i b c d =
     (if i < 16 then (b AND c) OR (not32 b AND d)
      else if i < 32 then (d AND b) OR (not32 d AND c)
      else if i < 48 then b XOR c XOR d
      else c XOR (b OR not32 d))"

definition md5_g :: "nat \<Rightarrow> nat" where
  "md5_g i =
     (if i < 16 then i
      else if i < 32 then (5 * i + 1) mod 16
      else if i < 48 then (3 * i + 5) mod 16
      else (7 * i) mod 16)"

fun md5_step :: "nat \<Rightarrow> nat \<Rightarrow> nat \<Rightarrow> nat list \<Rightarrow> nat list \<Rightarrow> nat list" where
  "md5_step i k s m [a, b, c, d] =
     [d, add32 b (rotl s (add32 (add32 (md5_f i b c d) a) (add32 k (m ! md5_g i)))), b, c]"
| "md5_step i k s m st = st"

fun md5_rounds :: "nat \<Rightarrow> nat list \<Rightarrow> nat list \<Rightarrow> nat list \<Rightarrow> nat list \<Rightarrow> nat list" where
  "md5_rounds i (k # ks) (s # ss) m st = md5_rounds (i + 1) ks ss m (md5_step i k s m st)"
| "md5_rounds i _ _ m st = st"

definition md5_compress :: "nat list \<Rightarrow> nat list \<Rightarrow> nat list" where
  "md5_compress hs blk = map2 add32 hs (md5_rounds 0 K_md5 S_md5 blk hs)"

function md5_blocks :: "nat list \<Rightarrow> nat list \<Rightarrow> nat list" where
  "md5_blocks ws hs =
     (if length ws < 16 then hs else md5_blocks (drop 16 ws) (md5_compress hs (take 16 ws)))"
  by pat_completeness auto
termination
  by (relation "measure (\<lambda>(ws, hs). length ws)") auto

declare md5_blocks.simps [simp del]

definition md5 :: "nat list \<Rightarrow> nat list" where
  "md5 m = concat (map le32 (md5_blocks (le_words (md5_pad m)) H_md5))"

subsection \<open>\<^verbatim>\<open>hexdigest()\<close> and \<^verbatim>\<open>int(s, 16)\<close>\<close>

definition hex_digit :: "nat \<Rightarrow> char" where
  "hex_digit n = ''0123456789abcdef'' ! n"

definition hexdigest :: "nat list \<Rightarrow> string" where
  "hexdigest bs = concat (map (\<lambda>b. [hex_digit (b div 16), hex_digit (b mod 16)]) bs)"

text \<open>
  \<^verbatim>\<open>int(s, 16)\<close> raises \<^verbatim>\<open>ValueError\<close> on a character that is no hexadecimal digit. It is only
  ever applied to a \<^verbatim>\<open>hexdigest()\<close>, where that branch is not taken (lemma
  \<open>int_base16_hexdigest\<close> below), so the value of a non-digit is left at 0.
\<close>

definition hex_value :: "char \<Rightarrow> nat" where
  "hex_value c =
     (let n = (of_char c :: nat) in
      if 48 \<le> n \<and> n \<le> 57 then n - 48
      else if 97 \<le> n \<and> n \<le> 102 then n - 87
      else if 65 \<le> n \<and> n \<le> 70 then n - 55
      else 0)"

definition int_base16 :: "string \<Rightarrow> nat" where
  "int_base16 s = foldl (\<lambda>acc c. 16 * acc + hex_value c) 0 s"

text \<open>A byte string read as an unsigned big-endian integer.\<close>

definition be_int :: "nat list \<Rightarrow> nat" where
  "be_int bs = foldl (\<lambda>acc b. 256 * acc + b) 0 bs"

subsection \<open>The two seed derivations\<close>

text \<open>
  \<^verbatim>\<open>main.py\<close>, line 62:
  \<^verbatim>\<open>date_seed = int(hashlib.sha256(date_str.encode()).hexdigest(), 16) % 2**31\<close>
\<close>

definition date_seed :: "string \<Rightarrow> nat" where
  "date_seed date_str = int_base16 (hexdigest (sha256 (map of_char date_str))) mod 2 ^ 31"

text \<open>
  \<^verbatim>\<open>draw.py\<close>, line 403:
  \<^verbatim>\<open>seed = int(hashlib.md5(date_str.encode()).hexdigest(), 16) % (2**32)\<close>
\<close>

definition word_date_seed :: "string \<Rightarrow> nat" where
  "word_date_seed date_str = int_base16 (hexdigest (md5 (map of_char date_str))) mod 2 ^ 32"

text \<open>
  The seed as the specification words it: the first 31 bits of the 256-bit digest, read as an
  unsigned integer and reduced modulo \<open>2 ^ 31\<close>.
\<close>

definition spec_first_31_bits_seed :: "string \<Rightarrow> nat" where
  "spec_first_31_bits_seed date_str =
     (be_int (sha256 (map of_char date_str)) div 2 ^ (256 - 31)) mod 2 ^ 31"


section \<open>Errors\<close>

text \<open>
  Every \<^verbatim>\<open>raise\<close>, failed \<^verbatim>\<open>assert\<close> and library exception that the modelled functions can
  meet is a value: \<open>ValueError\<close> carries the message of the source, \<open>DatabaseError\<close> the result
  code with which the database engine refused a statement.
\<close>

datatype error =
    ValueError string
  | AssertionError
  | IntegrityError string
  | DatabaseError nat

section \<open>The entry store\<close>

text \<open>
  Python strings are sequences of Unicode code points: \<^verbatim>\<open>len\<close> and \<^verbatim>\<open>list\<close> count code points,
  not bytes, so stored markup and the text of a document are lists of code points.
\<close>

type_synonym ustr = "nat list"

text \<open>
  The schema of \<^verbatim>\<open>store_extracted_results\<close>: \<^verbatim>\<open>words(id, representation_html, created_at)\<close> and
  \<^verbatim>\<open>meaning_wrappers(id, word_id, wrapper_html)\<close>. No query reads \<^verbatim>\<open>created_at\<close>, which is left
  out. Both \<^verbatim>\<open>id\<close> columns are \<^verbatim>\<open>INTEGER PRIMARY KEY AUTOINCREMENT\<close>; the engine keeps the
  largest row id ever assigned per table in \<^verbatim>\<open>sqlite_sequence\<close>.
\<close>

record word_row =
  w_id :: int
  representation_html :: ustr

record wrapper_row =
  mw_id :: int
  mw_word_id :: int
  wrapper_html :: ustr

record store =
  words :: "word_row list"
  meaning_wrappers :: "wrapper_row list"
  words_seq :: int
  wrappers_seq :: int

text \<open>
  What the engine itself maintains: primary keys are unique, and an \<^verbatim>\<open>AUTOINCREMENT\<close> id is
  positive. Row ids are kept below \<open>2 ^ 32\<close>, so that the product of an id and a seed below
  \<open>2 ^ 31\<close> is a 64-bit integer; beyond that SQLite computes the product in floating point,
  which is outside this model.
\<close>

definition pk_ok :: "store \<Rightarrow> bool" where
  "pk_ok s \<longleftrightarrow>
     distinct (map w_id (words s)) \<and> distinct (map mw_id (meaning_wrappers s)) \<and>
     list_all (\<lambda>w. 0 < w_id w \<and> w_id w < 2 ^ 32) (words s) \<and>
     list_all (\<lambda>m. 0 < mw_id m \<and> mw_id m < 2 ^ 32 \<and> 0 < mw_word_id m \<and> mw_word_id m < 2 ^ 32)
       (meaning_wrappers s)"

text \<open>Referential integrity: every gloss belongs to a word of the store.\<close>

definition fk_ok :: "store \<Rightarrow> bool" where
  "fk_ok s \<longleftrightarrow> list_all (\<lambda>m. mw_word_id m \<in> set (map w_id (words s))) (meaning_wrappers s)"

definition wf_store :: "store \<Rightarrow> bool" where
  "wf_store s \<longleftrightarrow> pk_ok s \<and> fk_ok s"

subsection \<open>The sort key \<^verbatim>\<open>SUBSTR(id * ?, 1, 15)\<close>\<close>

text \<open>
  The product of two integers is an integer; \<^verbatim>\<open>SUBSTR\<close> converts it to its decimal text and
  keeps the first 15 characters. \<^verbatim>\<open>ORDER BY\<close> compares these texts byte by byte (the
  \<^verbatim>\<open>BINARY\<close> collation), a proper prefix first: the lexicographic order on \<open>string\<close>.
\<close>

function digits_of :: "nat \<Rightarrow> string" where
  "digits_of n =
     (if n < 10 then [''0123456789'' ! n]
      else digits_of (n div 10) @ [''0123456789'' ! (n mod 10)])"
  by pat_completeness auto
termination
  by (relation "measure (\<lambda>n. n)") auto

declare digits_of.simps [simp del]

definition sql_text :: "int \<Rightarrow> string" where
  "sql_text i = (if i < 0 then CHR ''-'' # digits_of (nat (- i)) else digits_of (nat i))"

definition substr_key :: "nat \<Rightarrow> int \<Rightarrow> string" where
  "substr_key seed i = take 15 (sql_text (i * int seed))"

subsection \<open>The daily selection (\<^verbatim>\<open>main.py\<close>, \<^verbatim>\<open>get_daily_meaning_wrappers\<close>)\<close>


record daily_row =
  meaning_wrapper :: ustr
  representation :: ustr
  word_id :: int








subsection \<open>The offset mode (\<^verbatim>\<open>draw.py\<close>, \<^verbatim>\<open>get_all_words\<close> and \<^verbatim>\<open>generate_word_date\<close>)\<close>

record full_row = daily_row +
  meaning_wrapper_id :: int

definition to_full_row :: "wrapper_row \<times> word_row \<Rightarrow> full_row" where
  "to_full_row r =
     \<lparr>meaning_wrapper = wrapper_html (fst r),
      representation = representation_html (snd r),
      word_id = mw_word_id (fst r),
      meaning_wrapper_id = mw_id (fst r)\<rparr>"

text \<open>
  \<^verbatim>\<open>FROM meaning_wrappers mw JOIN words w ON mw.word_id = w.id ORDER BY mw.word_id, mw.id\<close>
\<close>

definition get_all_words :: "store \<Rightarrow> full_row list" where
  "get_all_words s =
     map to_full_row
       (sort_key (\<lambda>(mw, w). (mw_word_id mw, mw_id mw))
          [(mw, w). mw \<leftarrow> meaning_wrappers s, w \<leftarrow> words s, mw_word_id mw = w_id w])"

text \<open>
  \<^verbatim>\<open>random.seed(seed); random.sample(data, 4)\<close>: the generator of the standard library decides
  which positions of the population are drawn. A \<open>sampler\<close> gives these positions for a seed,
  a population size and a sample size. \<^verbatim>\<open>random.sample\<close> raises \<^verbatim>\<open>ValueError\<close> when the
  population is smaller than the sample.
\<close>

type_synonym sampler = "nat \<Rightarrow> nat \<Rightarrow> nat \<Rightarrow> nat list"

definition sampler_ok :: "sampler \<Rightarrow> bool" where
  "sampler_ok smp \<longleftrightarrow>
     (\<forall>seed n k. k \<le> n \<longrightarrow>
        length (smp seed n k) = k \<and> distinct (smp seed n k) \<and> (\<forall>i \<in> set (smp seed n k). i < n))"

definition random_sample :: "sampler \<Rightarrow> nat \<Rightarrow> 'a list \<Rightarrow> nat \<Rightarrow> error + 'a list" where
  "random_sample smp seed population k =
     (if length population < k then Inl (ValueError ''Sample larger than population or is negative'')
      else Inr (map (\<lambda>i. population ! i) (smp seed (length population) k)))"

text \<open>
  \<^verbatim>\<open>generate_word_date\<close> up to the row it hands to \<^verbatim>\<open>plot_word\<close>; the drawing itself is
  outside the model.
\<close>

definition generate_word_date :: "sampler \<Rightarrow> store \<Rightarrow> string \<Rightarrow> int \<Rightarrow> error + full_row" where
  "generate_word_date smp s date_str offset =
     (let data = get_all_words s;
          seed = word_date_seed date_str
      in case random_sample smp seed data 4 of
           Inl e \<Rightarrow> Inl e
         | Inr data_rand \<Rightarrow> Inr (data_rand ! nat (offset mod 4)))"


section \<open>Parsed markup\<close>

text \<open>
  \<^verbatim>\<open>BeautifulSoup(html, 'html.parser')\<close> is the library's parser; the functions below work on
  the tree it returns. A node is a string of the document or an element with its tag name, the
  values of its \<^verbatim>\<open>class\<close> attribute and its contents. The document itself is the element
  named \<^verbatim>\<open>[document]\<close>.
\<close>

datatype node =
    Text ustr
  | Elem string "string list" "node list"

fun "contents" :: "node \<Rightarrow> node list" where
  "contents (Text t) = []"
| "contents (Elem name classes cs) = cs"

text \<open>All nodes below a node, in document order.\<close>

fun descendants :: "node \<Rightarrow> node list" where
  "descendants (Text t) = []"
| "descendants (Elem name classes cs) = concat (map (\<lambda>c. c # descendants c) cs)"

text \<open>\<^verbatim>\<open>find_all(name)\<close>, \<^verbatim>\<open>find_all(name, class_=c)\<close> and \<^verbatim>\<open>find\<close>, their first result.\<close>

fun named :: "string \<Rightarrow> node \<Rightarrow> bool" where
  "named name (Text t) = False"
| "named name (Elem name' classes cs) = (name' = name)"

fun has_class :: "string \<Rightarrow> node \<Rightarrow> bool" where
  "has_class c (Text t) = False"
| "has_class c (Elem name classes cs) = (c \<in> set classes)"

definition find_all :: "(node \<Rightarrow> bool) \<Rightarrow> node \<Rightarrow> node list" where
  "find_all P n = filter P (descendants n)"

definition find_first :: "(node \<Rightarrow> bool) \<Rightarrow> node \<Rightarrow> node option" where
  "find_first P n = (case find_all P n of [] \<Rightarrow> None | x # _ \<Rightarrow> Some x)"

text \<open>
  \<^verbatim>\<open>str.strip()\<close> removes leading and trailing white space, the code points for which
  \<^verbatim>\<open>str.isspace()\<close> holds.
\<close>

definition is_space :: "nat \<Rightarrow> bool" where
  "is_space c \<longleftrightarrow>
     (9 \<le> c \<and> c \<le> 13) \<or> (28 \<le> c \<and> c \<le> 32) \<or> c = 133 \<or> c = 160 \<or> c = 5760 \<or>
     (8192 \<le> c \<and> c \<le> 8202) \<or> c = 8232 \<or> c = 8233 \<or> c = 8239 \<or> c = 8287 \<or> c = 12288"

definition strip :: "ustr \<Rightarrow> ustr" where
  "strip s = rev (dropWhile is_space (rev (dropWhile is_space s)))"

text \<open>The strings below a node in document order; \<^verbatim>\<open>.text\<close> joins them.\<close>

fun strings :: "node \<Rightarrow> ustr list" where
  "strings (Text t) = [t]"
| "strings (Elem name classes cs) = concat (map strings cs)"

definition get_text :: "node \<Rightarrow> ustr" where
  "get_text n = concat (strings n)"


section \<open>The markup extractor (\<^verbatim>\<open>draw.py\<close>)\<close>

record representation_block =
  kanji :: ustr
  furigana :: ustr
  furigana_span :: "ustr option"

text \<open>\<^verbatim>\<open>TextBlock\<close> and its \<^verbatim>\<open>__len__\<close>.\<close>

record text_block =
  tb_char :: ustr
  is_span :: bool

definition text_block_len :: "text_block \<Rightarrow> nat" where
  "text_block_len tb = (if is_span tb then 1 else length (tb_char tb))"

subsection \<open>\<^verbatim>\<open>extract_representation\<close>\<close>

text \<open>
  The loop over the children of the furigana span: a \<^verbatim>\<open>span\<close> child gives its stripped text
  and no base text, a \<^verbatim>\<open>ruby\<close> child the stripped text of its \<^verbatim>\<open>rt\<close> and of its \<^verbatim>\<open>rb\<close>, if
  any; every other child, a string included, raises. The message of the last error ends in
  the rendering of the child, which is left out here.
\<close>

fun furigana_children :: "node list \<Rightarrow> error + (ustr \<times> ustr option) list" where
  "furigana_children [] = Inr []"
| "furigana_children (child # rest) =
     (if named ''span'' child then
        (case furigana_children rest of
           Inl e \<Rightarrow> Inl e
         | Inr rs \<Rightarrow> Inr ((strip (get_text child), None) # rs))
      else if named ''ruby'' child then
        (case find_first (named ''rt'') child of
           None \<Rightarrow> Inl (ValueError ''Malformed ruby element: missing <rt>'')
         | Some rt \<Rightarrow>
             (case furigana_children rest of
                Inl e \<Rightarrow> Inl e
              | Inr rs \<Rightarrow>
                  Inr ((strip (get_text rt),
                        map_option (\<lambda>rb. strip (get_text rb)) (find_first (named ''rb'') child))
                       # rs)))
      else Inl (ValueError ''Unexpected element in furigana span''))"

definition parse_furigana :: "node \<Rightarrow> error + (ustr \<times> ustr option) list" where
  "parse_furigana concept_div =
     (case find_first (\<lambda>n. named ''span'' n \<and> has_class ''furigana'' n) concept_div of
        None \<Rightarrow> Inr []
      | Some furigana_span_div \<Rightarrow> furigana_children (contents furigana_span_div))"

text \<open>The loop over the contents of the text span.\<close>

fun text_blocks :: "node list \<Rightarrow> text_block list" where
  "text_blocks [] = []"
| "text_blocks (Text t # rest) =
     (if strip t \<noteq> [] then \<lparr>tb_char = strip t, is_span = False\<rparr> # text_blocks rest
      else text_blocks rest)"
| "text_blocks (Elem name classes cs # rest) =
     (if name = ''span''
      then \<lparr>tb_char = strip (get_text (Elem name classes cs)), is_span = True\<rparr> # text_blocks rest
      else text_blocks rest)"

text \<open>\<^verbatim>\<open>combined_text\<close>: a span stays one unit, a plain block becomes its characters.\<close>

fun combined_text :: "text_block list \<Rightarrow> ustr list" where
  "combined_text [] = []"
| "combined_text (tb # rest) =
     (if is_span tb then tb_char tb # combined_text rest
      else map (\<lambda>c. [c]) (tb_char tb) @ combined_text rest)"

text \<open>
  \<^verbatim>\<open>zip(text, furigana, furigana_span)\<close> into \<^verbatim>\<open>RepresentationBlock\<close>s; as in Python the result
  is as long as the shorter argument.
\<close>

definition zip_blocks :: "ustr list \<Rightarrow> (ustr \<times> ustr option) list \<Rightarrow> representation_block list" where
  "zip_blocks ks fs =
     map (\<lambda>(k, f, fs). \<lparr>kanji = k, furigana = f, furigana_span = fs\<rparr>) (zip ks fs)"

definition reconcile ::
  "(ustr \<times> ustr option) list \<Rightarrow> text_block list \<Rightarrow> error + representation_block list" where
  "reconcile fs text =
     (if length fs = length text then Inr (zip_blocks (map tb_char text) fs)
      else if length fs = sum_list (map text_block_len text)
      then Inr (zip_blocks (combined_text text) fs)
      else Inl (ValueError ''Mismatch between furigana and text lengths''))"

definition extract_representation :: "node \<Rightarrow> error + representation_block list" where
  "extract_representation soup =
     (case find_first (\<lambda>n. named ''div'' n \<and> has_class ''concept_light-representation'' n) soup of
        None \<Rightarrow> Inr []
      | Some concept_div \<Rightarrow>
          (case parse_furigana concept_div of
             Inl e \<Rightarrow> Inl e
           | Inr fs \<Rightarrow>
               (case find_first (\<lambda>n. named ''span'' n \<and> has_class ''text'' n) concept_div of
                  None \<Rightarrow> Inl AssertionError
                | Some text_span \<Rightarrow> reconcile fs (text_blocks (contents text_span)))))"

subsection \<open>\<^verbatim>\<open>extract_meaning\<close>\<close>



section \<open>The scraper (\<^verbatim>\<open>jishi scrape/main.py\<close>)\<close>

subsection \<open>\<^verbatim>\<open>extract_words_with_sentences\<close>\<close>

record scraped_entry =
  entry_representation :: ustr
  entry_meaning_wrappers :: "ustr list"

text \<open>
  \<^verbatim>\<open>str(tag)\<close> and the parser are the library's: \<open>render\<close> and \<open>parse\<close>. A wrapper is copied by
  rendering it and parsing the result, \<^verbatim>\<open>BeautifulSoup(str(wrapper), 'html.parser').find('div')\<close>.
\<close>

definition has_sentence :: "node \<Rightarrow> bool" where
  "has_sentence wrapper \<longleftrightarrow>
     find_first (\<lambda>n. named ''div'' n \<and> has_class ''sentence'' n) wrapper \<noteq> None"

text \<open>\<^verbatim>\<open>for x in tag.find_all(...): x.decompose()\<close> removes every matching node below the tag.\<close>

fun decompose_all :: "(node \<Rightarrow> bool) \<Rightarrow> node \<Rightarrow> node" where
  "decompose_all P (Text t) = Text t"
| "decompose_all P (Elem name classes cs) =
     Elem name classes (map (decompose_all P) (filter (\<lambda>c. \<not> P c) cs))"

text \<open>\<^verbatim>\<open>tag.string\<close>: the only string of a tag whose contents nest down to one string.\<close>

fun node_string :: "node \<Rightarrow> ustr option" where
  "node_string (Text t) = Some t"
| "node_string (Elem name classes [c]) = node_string c"
| "node_string (Elem name classes cs) = None"

definition clean_wrapper :: "node \<Rightarrow> node" where
  "clean_wrapper wrapper_copy =
     decompose_all (\<lambda>n. named ''span'' n \<and> has_class ''supplemental_info'' n)
       (decompose_all (\<lambda>n. named ''span'' n \<and> node_string n = Some [8203])
          (decompose_all (\<lambda>n. named ''span'' n \<and> has_class ''meaning-definition-section_divider'' n)
             wrapper_copy))"

definition remove_newlines :: "ustr \<Rightarrow> ustr" where
  "remove_newlines t = filter (\<lambda>c. c \<noteq> 10) t"

text \<open>The body of the loop over the wrappers of an entry: what is appended, if anything.\<close>

definition wrapper_html_of :: "(node \<Rightarrow> ustr) \<Rightarrow> (ustr \<Rightarrow> node) \<Rightarrow> node \<Rightarrow> ustr option" where
  "wrapper_html_of render parse wrapper =
     (if \<not> has_sentence wrapper then None
      else case find_first (named ''div'') (parse (render wrapper)) of
             None \<Rightarrow> None
           | Some wrapper_copy \<Rightarrow> Some (remove_newlines (render (clean_wrapper wrapper_copy))))"

definition entry_of :: "(node \<Rightarrow> ustr) \<Rightarrow> (ustr \<Rightarrow> node) \<Rightarrow> node \<Rightarrow> scraped_entry list" where
  "entry_of render parse entry =
     (case find_first (\<lambda>n. named ''div'' n \<and> has_class ''concept_light-representation'' n) entry of
        None \<Rightarrow> []
      | Some representation_div \<Rightarrow>
          (let wrappers =
                 List.map_filter (wrapper_html_of render parse)
                   (find_all (\<lambda>n. named ''div'' n \<and> has_class ''meaning-wrapper'' n) entry)
           in if wrappers = [] then []
              else [\<lparr>entry_representation = remove_newlines (render representation_div),
                     entry_meaning_wrappers = wrappers\<rparr>]))"

definition extract_words_with_sentences ::
  "(node \<Rightarrow> ustr) \<Rightarrow> (ustr \<Rightarrow> node) \<Rightarrow> node \<Rightarrow> scraped_entry list" where
  "extract_words_with_sentences render parse soup =
     concat (map (entry_of render parse)
               (find_all (\<lambda>n. named ''div'' n \<and> has_class ''concept_light'' n) soup))"

subsection \<open>\<^verbatim>\<open>store_extracted_results\<close>\<close>

text \<open>
  A connection holds the committed content of the database file and the content as the
  statements of the connection see it. Outside a transaction a statement is committed at
  once; between \<^verbatim>\<open>BEGIN\<close> and \<^verbatim>\<open>commit\<close> or \<^verbatim>\<open>rollback\<close> only the working content changes.
\<close>

record connection =
  committed :: store
  working :: store
  in_transaction :: bool

definition connect :: "store \<Rightarrow> connection" where
  "connect db = \<lparr>committed = db, working = db, in_transaction = False\<rparr>"

definition begin_transaction :: "connection \<Rightarrow> connection" where
  "begin_transaction conn = conn\<lparr>in_transaction := True\<rparr>"

definition commit :: "connection \<Rightarrow> connection" where
  "commit conn = conn\<lparr>committed := working conn, in_transaction := False\<rparr>"

definition rollback :: "connection \<Rightarrow> connection" where
  "rollback conn = conn\<lparr>working := committed conn, in_transaction := False\<rparr>"

definition execute_write :: "(store \<Rightarrow> store) \<Rightarrow> connection \<Rightarrow> connection" where
  "execute_write f conn =
     (if in_transaction conn then conn\<lparr>working := f (working conn)\<rparr>
      else conn\<lparr>working := f (working conn), committed := f (working conn)\<rparr>)"

text \<open>
  The engine can refuse any statement (a full disk, a locked file): \<open>faults n\<close> is the error,
  if any, with which it refuses the \<open>n\<close>-th statement of the connection.
\<close>

type_synonym faults = "nat \<Rightarrow> error option"

text \<open>
  \<^verbatim>\<open>AUTOINCREMENT\<close>: one more than the largest id the table holds or has ever held.
\<close>

definition next_rowid :: "int \<Rightarrow> int list \<Rightarrow> int" where
  "next_rowid seq ids = max seq (fold max ids 0) + 1"

definition insert_word :: "ustr \<Rightarrow> store \<Rightarrow> store" where
  "insert_word html s =
     (let i = next_rowid (words_seq s) (map w_id (words s))
      in s\<lparr>words := words s @ [\<lparr>w_id = i, representation_html = html\<rparr>], words_seq := i\<rparr>)"

text \<open>
  \<^verbatim>\<open>sqlite3.connect\<close> opens the connection with \<^verbatim>\<open>PRAGMA foreign_keys\<close> at the engine's default,
  off, and no statement of the repository turns it on: the \<^verbatim>\<open>FOREIGN KEY\<close> clause of the schema
  is recorded and not checked.
\<close>

definition foreign_keys :: bool where
  "foreign_keys = False"

definition insert_meaning_wrapper :: "int \<Rightarrow> ustr \<Rightarrow> store \<Rightarrow> error + store" where
  "insert_meaning_wrapper wid html s =
     (if foreign_keys \<and> wid \<notin> set (map w_id (words s))
      then Inl (IntegrityError ''FOREIGN KEY constraint failed'')
      else let i = next_rowid (wrappers_seq s) (map mw_id (meaning_wrappers s))
           in Inr (s\<lparr>meaning_wrappers :=
                        meaning_wrappers s @ [\<lparr>mw_id = i, mw_word_id = wid, wrapper_html = html\<rparr>],
                      wrappers_seq := i\<rparr>))"

text \<open>
  The two loops of the \<^verbatim>\<open>try\<close> block. Each returns the number of the next statement and the
  connection as the statements executed so far have left it, with the error that stopped
  the loop, if any. \<^verbatim>\<open>c.lastrowid\<close> is the id of the word just inserted.
\<close>

fun insert_wrappers ::
  "faults \<Rightarrow> int \<Rightarrow> ustr list \<Rightarrow> nat \<times> connection \<Rightarrow> error option \<times> nat \<times> connection" where
  "insert_wrappers flt word_rowid [] (n, conn) = (None, n, conn)"
| "insert_wrappers flt word_rowid (wrapper # rest) (n, conn) =
     (case flt n of
        Some e \<Rightarrow> (Some e, n, conn)
      | None \<Rightarrow>
          (case insert_meaning_wrapper word_rowid wrapper (working conn) of
             Inl e \<Rightarrow> (Some e, n, conn)
           | Inr s \<Rightarrow> insert_wrappers flt word_rowid rest (Suc n, execute_write (\<lambda>_. s) conn)))"

fun insert_entries ::
  "faults \<Rightarrow> scraped_entry list \<Rightarrow> nat \<times> connection \<Rightarrow> error option \<times> nat \<times> connection" where
  "insert_entries flt [] (n, conn) = (None, n, conn)"
| "insert_entries flt (entry # rest) (n, conn) =
     (case flt n of
        Some e \<Rightarrow> (Some e, n, conn)
      | None \<Rightarrow>
          (let conn1 = execute_write (insert_word (entry_representation entry)) conn;
               word_rowid = words_seq (working conn1)
           in case insert_wrappers flt word_rowid (entry_meaning_wrappers entry) (Suc n, conn1) of
                (Some e, n', conn') \<Rightarrow> (Some e, n', conn')
              | (None, n', conn') \<Rightarrow> insert_entries flt rest (n', conn')))"

text \<open>
  The whole function: the three \<^verbatim>\<open>CREATE ... IF NOT EXISTS\<close> statements (numbers 0 to 2, which
  change no row), \<^verbatim>\<open>BEGIN TRANSACTION\<close> (number 3), the \<^verbatim>\<open>try\<close> block with \<^verbatim>\<open>conn.commit()\<close> as its
  last statement, and \<^verbatim>\<open>except: conn.rollback(); raise\<close>. An error outside the \<^verbatim>\<open>try\<close> block
  leaves through the \<^verbatim>\<open>with\<close> statement, which rolls back as well. The result is what the
  caller sees, an exception or a normal return, and the content of the database file.
\<close>

definition store_extracted_results ::
  "faults \<Rightarrow> store \<Rightarrow> scraped_entry list list \<Rightarrow> (error + unit) \<times> store" where
  "store_extracted_results flt db results =
     (let all_entries = concat results;
          conn = connect db
      in case List.find (\<lambda>n. flt n \<noteq> None) [0, 1, 2, 3] of
           Some n \<Rightarrow> (Inl (the (flt n)), committed (rollback conn))
         | None \<Rightarrow>
             (case insert_entries flt all_entries (4, begin_transaction conn) of
                (Some e, n, conn') \<Rightarrow> (Inl e, committed (rollback conn'))
              | (None, n, conn') \<Rightarrow>
                  (case flt n of
                     Some e \<Rightarrow> (Inl e, committed (rollback conn'))
                   | None \<Rightarrow> (Inr (), committed (commit conn')))))"

section \<open>Collisions of sort keys\<close>

text \<open>
  A seed is free of collisions on a store when no two word ids and no two gloss ids of the
  store have the same sort key.
\<close>

definition collision_free :: "nat \<Rightarrow> store \<Rightarrow> bool" where
  "collision_free seed s \<longleftrightarrow>
     distinct (map (substr_key seed) (remdups (map mw_word_id (meaning_wrappers s)))) \<and>
     distinct (map (substr_key seed) (remdups (map mw_id (meaning_wrappers s))))"

section \<open>Example inputs\<close>

text \<open>
  The representation of the verb \<^emph>\<open>yomu\<close>: two readings (U+3088, U+3080) over the text
  U+8AAD U+3080, which the parser delivers as one string.
\<close>

definition yomu_div :: node where
  "yomu_div =
     Elem ''div'' [''concept_light-representation'']
       [Elem ''span'' [''furigana'']
          [Elem ''span'' [''kanji-1-up'', ''kanji''] [Text [12424]], Elem ''span'' [] [Text [12416]]],
        Elem ''span'' [''text''] [Text [10, 32, 35501, 12416, 32]]]"

definition yomu_soup :: node where
  "yomu_soup = Elem ''[document]'' [] [yomu_div]"


text \<open>A document with neither a representation container nor any marker of a gloss.\<close>

definition plain_soup :: node where
  "plain_soup = Elem ''[document]'' [] [Elem ''p'' [] [Text [104, 105]]]"

text \<open>
  A store with one word and one gloss, a batch of one entry with two glosses, and an engine
  that refuses the statement number 6 (the insert of the second gloss) with the result code 13,
  \<^verbatim>\<open>SQLITE_FULL\<close>.
\<close>

definition db0 :: store where
  "db0 = \<lparr>words = [\<lparr>w_id = 1, representation_html = [114]\<rparr>],
          meaning_wrappers = [\<lparr>mw_id = 1, mw_word_id = 1, wrapper_html = [109]\<rparr>],
          words_seq = 1, wrappers_seq = 1\<rparr>"

definition batch0 :: "scraped_entry list list" where
  "batch0 = [[\<lparr>entry_representation = [97], entry_meaning_wrappers = [[98], [99]]\<rparr>]]"

definition disk_full :: faults where
  "disk_full n = (if n = 6 then Some (DatabaseError 13) else None)"

definition no_faults :: faults where
  "no_faults n = None"


text \<open>
  A scraped page with one entry: its first gloss carries a sentence block, its second does
  not. In the example the serialiser is replaced by the text of a node and the parser by a
  function that wraps its input in one \<^verbatim>\<open>div\<close>.
\<close>

definition page0 :: node where
  "page0 =
     Elem ''[document]'' []
       [Elem ''div'' [''concept_light'']
          [Elem ''div'' [''concept_light-representation''] [Text [35501]],
           Elem ''div'' [''meaning-wrapper'']
             [Elem ''span'' [''meaning-meaning''] [Text [114, 101, 97, 100]],
              Elem ''div'' [''sentence''] [Text [101, 120]]],
           Elem ''div'' [''meaning-wrapper'']
             [Elem ''span'' [''meaning-meaning''] [Text [115, 97, 121]]]]]"

definition example_render :: "node \<Rightarrow> ustr" where
  "example_render n = get_text n"

definition example_parse :: "ustr \<Rightarrow> node" where
  "example_parse t = Elem ''[document]'' [] [Elem ''div'' [] [Text t]]"

definition db0_after_page0 :: store where
  "db0_after_page0 =
     \<lparr>words = [\<lparr>w_id = 1, representation_html = [114]\<rparr>,
               \<lparr>w_id = 2, representation_html = [35501]\<rparr>],
      meaning_wrappers = [\<lparr>mw_id = 1, mw_word_id = 1, wrapper_html = [109]\<rparr>,
                          \<lparr>mw_id = 2, mw_word_id = 2,
                            wrapper_html = [114, 101, 97, 100, 101, 120]\<rparr>],
      words_seq = 2, wrappers_seq = 2\<rparr>"

text \<open>
  The store of the scenario of the specification: the words 1 to 5, each with one gloss; the
  same rows in the opposite physical order; an engine that breaks ties by ascending id and
  one that breaks them by descending id; a sampler that draws the first positions.
\<close>

definition word5 :: "nat \<Rightarrow> word_row" where
  "word5 i = \<lparr>w_id = int i, representation_html = [i]\<rparr>"

definition gloss5 :: "nat \<Rightarrow> wrapper_row" where
  "gloss5 i = \<lparr>mw_id = int i, mw_word_id = int i, wrapper_html = [10 + i]\<rparr>"

definition store5 :: store where
  "store5 =
     \<lparr>words = map word5 [1, 2, 3, 4, 5],
      meaning_wrappers = map gloss5 [1, 2, 3, 4, 5],
      words_seq = 5, wrappers_seq = 5\<rparr>"





definition example_sampler :: sampler where
  "example_sampler seed n k = [0..<k]"

section \<open>Properties of the seed derivations\<close>

subsection \<open>Hexadecimal digests\<close>

lemma hex_value_digit: "n < 16 \<Longrightarrow> hex_value (hex_digit n) = n"
proof -
  assume "n < 16"
  then have "n \<in> set [0..<16]" by simp
  then show ?thesis
    unfolding hex_value_def hex_digit_def
    by (simp add: upt_rec) auto
qed

lemma int_base16_hexdigest_acc:
  assumes "\<forall>b \<in> set bs. b < 256"
  shows "foldl (\<lambda>acc c. 16 * acc + hex_value c) a (hexdigest bs)
           = foldl (\<lambda>acc b. 256 * acc + b) a bs"
  using assms
proof (induction bs arbitrary: a)
  case Nil
  then show ?case by (simp add: hexdigest_def)
next
  case (Cons b bs)
  from Cons.prems have b: "b < 256" by simp
  then have "b div 16 < 16" "b mod 16 < 16" by simp_all
  then have digits: "hex_value (hex_digit (b div 16)) = b div 16"
                    "hex_value (hex_digit (b mod 16)) = b mod 16"
    by (simp_all add: hex_value_digit)
  have "16 * (16 * a + b div 16) + b mod 16 = 256 * a + b" by simp
  moreover have "foldl (\<lambda>acc c. 16 * acc + hex_value c) a (hexdigest (b # bs))
      = foldl (\<lambda>acc c. 16 * acc + hex_value c) (16 * (16 * a + b div 16) + b mod 16)
          (hexdigest bs)"
    by (simp add: hexdigest_def digits)
  ultimately show ?case using Cons by (simp add: add.commute)
qed

lemma int_base16_hexdigest:
  "\<forall>b \<in> set bs. b < 256 \<Longrightarrow> int_base16 (hexdigest bs) = be_int bs"
  by (simp add: int_base16_def be_int_def int_base16_hexdigest_acc)

lemma sha256_bytes: "b \<in> set (sha256 m) \<Longrightarrow> b < 256"
  by (auto simp: sha256_def be32_def)

lemma md5_bytes: "b \<in> set (md5 m) \<Longrightarrow> b < 256"
  by (auto simp: md5_def le32_def)

lemma date_seed_be_int: "date_seed d = be_int (sha256 (map of_char d)) mod 2 ^ 31"
  by (simp add: date_seed_def int_base16_hexdigest sha256_bytes)

lemma word_date_seed_be_int: "word_date_seed d = be_int (md5 (map of_char d)) mod 2 ^ 32"
  by (simp add: word_date_seed_def int_base16_hexdigest md5_bytes)

subsection \<open>Digests of three dates\<close>

lemma replicate_numeral_Cons: "replicate (numeral k) x = x # replicate (pred_numeral k) x"
  by (simp add: numeral_eq_Suc)

lemmas hash_defs = sha_pad_def md5_pad_def be64_def le64_def be32_def le32_def
  sha_blocks.simps sha_compress_def K256_def H256_def
  md5_blocks.simps md5_compress_def K_md5_def S_md5_def H_md5_def md5_f_def md5_g_def
  next_w_def add32_def rotr_def rotl_def not32_def Ch_def Maj_def
  bsig0_def bsig1_def ssig0_def ssig1_def replicate_numeral_Cons

lemma bytes_2024_01_01:
  "map of_char ''2024-01-01'' = [50, 48, 50, 52, 45, 48, 49, 45, 48, 49 :: nat]"
  by simp


lemma sha256_2024_01_01:
  "sha256 [50, 48, 50, 52, 45, 48, 49, 45, 48, 49] =
     [65, 182, 47, 180, 81, 133, 5, 211, 109, 205, 53, 198, 131, 239, 225, 49,
      13, 36, 234, 34, 214, 209, 70, 160, 128, 76, 129, 128, 112, 83, 24, 20]"
  by (simp add: sha256_def hash_defs)


lemma md5_2024_01_01:
  "md5 [50, 48, 50, 52, 45, 48, 49, 45, 48, 49] =
     [248, 103, 244, 177, 186, 48, 191, 75, 190, 211, 66, 195, 43, 137, 17, 12]"
  by (simp add: md5_def hash_defs)

lemma date_seed_2024_01_01: "date_seed ''2024-01-01'' = 1884493844"
  unfolding date_seed_be_int bytes_2024_01_01 sha256_2024_01_01
  by (simp add: be_int_def)


lemma word_date_seed_2024_01_01: "word_date_seed ''2024-01-01'' = 730403084"
  unfolding word_date_seed_be_int bytes_2024_01_01 md5_2024_01_01
  by (simp add: be_int_def)

text \<open>
  Claim C4, as the code has it. For the date 2024-01-01 the seed of the code is 1884493844,
  the low 31 bits of the digest; the first 31 bits of the digest are 551229402.
\<close>

theorem date_seed_is_not_first_31_bits:
  "date_seed ''2024-01-01'' = 1884493844 \<and>
   spec_first_31_bits_seed ''2024-01-01'' = 551229402"
  unfolding date_seed_be_int spec_first_31_bits_seed_def bytes_2024_01_01 sha256_2024_01_01
  by (simp add: be_int_def)

text \<open>
  Claim C4, amended. The seed of the daily selection is the whole SHA-256 digest of the date
  string, read as an unsigned big-endian integer and reduced modulo \<open>2 ^ 31\<close>: the last 31
  bits of the digest.
\<close>

theorem date_seed_low_31_bits:
  "date_seed date_str = be_int (sha256 (map of_char date_str)) mod 2 ^ 31 \<and>
   date_seed date_str = take_bit 31 (be_int (sha256 (map of_char date_str))) \<and>
   date_seed date_str < 2 ^ 31"
  by (simp add: date_seed_be_int take_bit_eq_mod)

section \<open>Properties of the markup extractor\<close>

lemma combined_text_concat:
  "combined_text us = concat (map (\<lambda>u. if is_span u then [tb_char u] else map (\<lambda>c. [c]) (tb_char u)) us)"
  by (induction us) simp_all

lemma length_combined_text: "length (combined_text us) = sum_list (map text_block_len us)"
  by (induction us) (simp_all add: text_block_len_def)

lemma zip_blocks_kanji: "length ks = length fs \<Longrightarrow> map kanji (zip_blocks ks fs) = ks"
  by (induction ks fs rule: list_induct2) (simp_all add: zip_blocks_def split: prod.splits)

lemma zip_blocks_readings:
  "length ks = length fs \<Longrightarrow> map (\<lambda>b. (furigana b, furigana_span b)) (zip_blocks ks fs) = fs"
  by (induction ks fs rule: list_induct2) (simp_all add: zip_blocks_def split: prod.splits)

text \<open>
  Claim C3. Let the reading list and the display units of a representation be extracted.
  If there are as many readings as units, \<^verbatim>\<open>extract_representation\<close> pairs them by position
  and every unit stays whole. Otherwise, if there are as many readings as the units have
  positions (one for a span, one per character for a plain unit), every plain unit is split
  into its characters in order, every span stays one unit, and readings and expanded units
  are paired by position. Otherwise the call fails with the length-mismatch \<^verbatim>\<open>ValueError\<close>
  and returns no blocks.
\<close>

theorem extract_representation_reconciles:
  assumes "find_first (\<lambda>n. named ''div'' n \<and> has_class ''concept_light-representation'' n) soup
             = Some concept_div"
    and "parse_furigana concept_div = Inr readings"
    and "find_first (\<lambda>n. named ''span'' n \<and> has_class ''text'' n) concept_div = Some text_span"
    and "text_blocks (contents text_span) = units"
  shows "(length readings = length units \<longrightarrow>
            (\<exists>blocks. extract_representation soup = Inr blocks \<and>
               map kanji blocks = map tb_char units \<and>
               map (\<lambda>b. (furigana b, furigana_span b)) blocks = readings)) \<and>
         (length readings \<noteq> length units \<and>
          length readings = (\<Sum>u\<leftarrow>units. if is_span u then 1 else length (tb_char u)) \<longrightarrow>
            (\<exists>blocks. extract_representation soup = Inr blocks \<and>
               map kanji blocks =
                 concat (map (\<lambda>u. if is_span u then [tb_char u] else map (\<lambda>c. [c]) (tb_char u)) units) \<and>
               map (\<lambda>b. (furigana b, furigana_span b)) blocks = readings)) \<and>
         (length readings \<noteq> length units \<and>
          length readings \<noteq> (\<Sum>u\<leftarrow>units. if is_span u then 1 else length (tb_char u)) \<longrightarrow>
            extract_representation soup = Inl (ValueError ''Mismatch between furigana and text lengths''))"
proof -
  have len: "(\<Sum>u\<leftarrow>units. if is_span u then 1 else length (tb_char u))
               = sum_list (map text_block_len units)"
    by (induction units) (simp_all add: text_block_len_def)
  have ex: "extract_representation soup = reconcile readings units"
    using assms by (simp add: extract_representation_def)
  show ?thesis
  proof (intro conjI impI)
    assume eq: "length readings = length units"
    then have "extract_representation soup = Inr (zip_blocks (map tb_char units) readings)"
      by (simp add: ex reconcile_def)
    with eq show "\<exists>blocks. extract_representation soup = Inr blocks \<and>
               map kanji blocks = map tb_char units \<and>
               map (\<lambda>b. (furigana b, furigana_span b)) blocks = readings"
      by (simp add: zip_blocks_kanji zip_blocks_readings)
  next
    assume h: "length readings \<noteq> length units \<and>
          length readings = (\<Sum>u\<leftarrow>units. if is_span u then 1 else length (tb_char u))"
    then have l: "length (combined_text units) = length readings"
      by (simp add: length_combined_text len)
    from h have "extract_representation soup = Inr (zip_blocks (combined_text units) readings)"
      by (simp add: ex reconcile_def len)
    with l show "\<exists>blocks. extract_representation soup = Inr blocks \<and>
               map kanji blocks =
                 concat (map (\<lambda>u. if is_span u then [tb_char u] else map (\<lambda>c. [c]) (tb_char u)) units) \<and>
               map (\<lambda>b. (furigana b, furigana_span b)) blocks = readings"
      by (simp add: zip_blocks_kanji zip_blocks_readings combined_text_concat [symmetric])
  next
    assume "length readings \<noteq> length units \<and>
          length readings \<noteq> (\<Sum>u\<leftarrow>units. if is_span u then 1 else length (tb_char u))"
    then show "extract_representation soup = Inl (ValueError ''Mismatch between furigana and text lengths'')"
      by (simp add: ex reconcile_def len)
  qed
qed

lemmas dom_defs = find_first_def find_all_def parse_furigana_def get_text_def strip_def is_space_def

lemma yomu_container:
  "find_first (\<lambda>n. named ''div'' n \<and> has_class ''concept_light-representation'' n) yomu_soup
     = Some yomu_div"
  by (simp add: yomu_soup_def yomu_div_def dom_defs)

lemma yomu_readings: "parse_furigana yomu_div = Inr [([12424], None), ([12416], None)]"
  by (simp add: yomu_div_def dom_defs)

lemma yomu_text_span:
  "find_first (\<lambda>n. named ''span'' n \<and> has_class ''text'' n) yomu_div
     = Some (Elem ''span'' [''text''] [Text [10, 32, 35501, 12416, 32]])"
  by (simp add: yomu_div_def dom_defs)

lemma yomu_units:
  "text_blocks (contents (Elem ''span'' [''text''] [Text [10, 32, 35501, 12416, 32]]))
     = [\<lparr>tb_char = [35501, 12416], is_span = False\<rparr>]"
  by (simp add: dom_defs)

theorem extract_representation_reconciles_witness:
  "find_first (\<lambda>n. named ''div'' n \<and> has_class ''concept_light-representation'' n) yomu_soup
     = Some yomu_div \<and>
   parse_furigana yomu_div = Inr [([12424], None), ([12416], None)] \<and>
   find_first (\<lambda>n. named ''span'' n \<and> has_class ''text'' n) yomu_div
     = Some (Elem ''span'' [''text''] [Text [10, 32, 35501, 12416, 32]]) \<and>
   text_blocks (contents (Elem ''span'' [''text''] [Text [10, 32, 35501, 12416, 32]]))
     = [\<lparr>tb_char = [35501, 12416], is_span = False\<rparr>] \<and>
   (\<exists>blocks. extract_representation yomu_soup = Inr blocks \<and>
      map kanji blocks = [[35501], [12416]] \<and>
      map (\<lambda>b. (furigana b, furigana_span b)) blocks = [([12424], None), ([12416], None)])"
  using extract_representation_reconciles
          [OF yomu_container yomu_readings yomu_text_span yomu_units]
        yomu_container yomu_readings yomu_text_span yomu_units
  by simp

text \<open>
  Claim C10. When the markup holds no representation container, \<^verbatim>\<open>extract_representation\<close>
  returns the empty list, a normal result: no error is raised, and the reconciliation with
  its errors is not reached.
\<close>

theorem extract_representation_without_container:
  assumes "find_first (\<lambda>n. named ''div'' n \<and> has_class ''concept_light-representation'' n) soup
             = None"
  shows "extract_representation soup = Inr []"
  using assms by (simp add: extract_representation_def)

lemma plain_soup_no_container:
  "find_first (\<lambda>n. named ''div'' n \<and> has_class ''concept_light-representation'' n) plain_soup
     = None"
  by (simp add: plain_soup_def dom_defs)

theorem extract_representation_without_container_witness:
  "find_first (\<lambda>n. named ''div'' n \<and> has_class ''concept_light-representation'' n) plain_soup
     = None \<and>
   extract_representation plain_soup = Inr []"
  using extract_representation_without_container [OF plain_soup_no_container]
        plain_soup_no_container
  by simp




section \<open>Properties of the scraper and of the bulk insert\<close>

subsection \<open>Statements inside a transaction\<close>

lemma insert_meaning_wrapper_Inr:
  "insert_meaning_wrapper wid html s =
     Inr (s\<lparr>meaning_wrappers :=
               meaning_wrappers s @
               [\<lparr>mw_id = next_rowid (wrappers_seq s) (map mw_id (meaning_wrappers s)),
                 mw_word_id = wid, wrapper_html = html\<rparr>],
             wrappers_seq := next_rowid (wrappers_seq s) (map mw_id (meaning_wrappers s))\<rparr>)"
  by (simp add: insert_meaning_wrapper_def foreign_keys_def Let_def)

lemma insert_wrappers_transaction:
  assumes "insert_wrappers flt wid hs (n, conn) = (eo, n', conn')" and "in_transaction conn"
  shows "in_transaction conn' \<and> committed conn' = committed conn"
  using assms
proof (induction hs arbitrary: n conn)
  case Nil
  then show ?case by auto
next
  case (Cons h hs)
  show ?case
  proof (cases "flt n")
    case None
    let ?c = "execute_write
                (\<lambda>_. working conn\<lparr>meaning_wrappers :=
                        meaning_wrappers (working conn) @
                        [\<lparr>mw_id = next_rowid (wrappers_seq (working conn))
                                    (map mw_id (meaning_wrappers (working conn))),
                          mw_word_id = wid, wrapper_html = h\<rparr>],
                      wrappers_seq := next_rowid (wrappers_seq (working conn))
                                        (map mw_id (meaning_wrappers (working conn)))\<rparr>) conn"
    from Cons.prems None have "insert_wrappers flt wid hs (Suc n, ?c) = (eo, n', conn')"
      by (simp add: insert_meaning_wrapper_Inr)
    moreover from Cons.prems(2) have "in_transaction ?c"
      by (simp add: execute_write_def)
    ultimately have "in_transaction conn' \<and> committed conn' = committed ?c"
      by (rule Cons.IH)
    with Cons.prems(2) show ?thesis by (simp add: execute_write_def)
  next
    case (Some e)
    with Cons.prems show ?thesis by auto
  qed
qed

lemma insert_wrappers_error:
  assumes "insert_wrappers flt wid hs (n, conn) = (Some e, n', conn')"
  shows "flt n' = Some e \<and> n \<le> n' \<and> (\<forall>m. n \<le> m \<and> m < n' \<longrightarrow> flt m = None)"
  using assms
proof (induction hs arbitrary: n conn)
  case Nil
  then show ?case by auto
next
  case (Cons h hs)
  show ?case
  proof (cases "flt n")
    case None
    with Cons.prems obtain c where "insert_wrappers flt wid hs (Suc n, c) = (Some e, n', conn')"
      by (simp add: insert_meaning_wrapper_Inr)
    then have ih: "flt n' = Some e \<and> Suc n \<le> n' \<and> (\<forall>m. Suc n \<le> m \<and> m < n' \<longrightarrow> flt m = None)"
      by (rule Cons.IH)
    have "flt m = None" if "n \<le> m" "m < n'" for m
      using that ih None by (cases "m = n") auto
    with ih show ?thesis by auto
  next
    case (Some e')
    with Cons.prems show ?thesis by auto
  qed
qed

lemma insert_wrappers_success:
  assumes "insert_wrappers flt wid hs (n, conn) = (None, n', conn')" and "in_transaction conn"
  shows "n' = n + length hs \<and> (\<forall>m. n \<le> m \<and> m < n' \<longrightarrow> flt m = None) \<and>
         words (working conn') = words (working conn) \<and>
         words_seq (working conn') = words_seq (working conn) \<and>
         (\<exists>new. meaning_wrappers (working conn') = meaning_wrappers (working conn) @ new \<and>
                map wrapper_html new = hs \<and> (\<forall>r \<in> set new. mw_word_id r = wid))"
  using assms
proof (induction hs arbitrary: n conn)
  case Nil
  then show ?case by auto
next
  case (Cons h hs)
  show ?case
  proof (cases "flt n")
    case None
    let ?row = "\<lparr>mw_id = next_rowid (wrappers_seq (working conn))
                            (map mw_id (meaning_wrappers (working conn))),
                  mw_word_id = wid, wrapper_html = h\<rparr>"
    let ?s = "working conn\<lparr>meaning_wrappers := meaning_wrappers (working conn) @ [?row],
                wrappers_seq := next_rowid (wrappers_seq (working conn))
                                  (map mw_id (meaning_wrappers (working conn)))\<rparr>"
    let ?c = "execute_write (\<lambda>_. ?s) conn"
    from Cons.prems None have run: "insert_wrappers flt wid hs (Suc n, ?c) = (None, n', conn')"
      by (simp add: insert_meaning_wrapper_Inr)
    from Cons.prems(2) have tx: "in_transaction ?c" and wk: "working ?c = ?s"
      by (simp_all add: execute_write_def)
    from Cons.IH [OF run tx] obtain new where
      ih: "n' = Suc n + length hs" "\<forall>m. Suc n \<le> m \<and> m < n' \<longrightarrow> flt m = None"
          "words (working conn') = words (working ?c)"
          "words_seq (working conn') = words_seq (working ?c)"
          "meaning_wrappers (working conn') = meaning_wrappers (working ?c) @ new"
          "map wrapper_html new = hs" "\<forall>r \<in> set new. mw_word_id r = wid"
      by blast
    have none: "flt m = None" if "n \<le> m" "m < n'" for m
      using that ih(2) None by (cases "m = n") auto
    have "\<exists>new. meaning_wrappers (working conn') = meaning_wrappers (working conn) @ new \<and>
                map wrapper_html new = h # hs \<and> (\<forall>r \<in> set new. mw_word_id r = wid)"
      using ih(5,6,7) wk by (intro exI [of _ "?row # new"]) simp
    with ih(1,3,4) wk none show ?thesis by simp
  next
    case (Some e)
    with Cons.prems show ?thesis by auto
  qed
qed

lemma insert_wrappers_none_range:
  assumes "insert_wrappers flt wid hs (n, conn) = (None, n', conn')"
  shows "n \<le> n' \<and> (\<forall>m. n \<le> m \<and> m < n' \<longrightarrow> flt m = None)"
  using assms
proof (induction hs arbitrary: n conn)
  case Nil
  then show ?case by auto
next
  case (Cons h hs)
  show ?case
  proof (cases "flt n")
    case None
    with Cons.prems obtain c where "insert_wrappers flt wid hs (Suc n, c) = (None, n', conn')"
      by (simp add: insert_meaning_wrapper_Inr)
    then have ih: "Suc n \<le> n' \<and> (\<forall>m. Suc n \<le> m \<and> m < n' \<longrightarrow> flt m = None)"
      by (rule Cons.IH)
    have "flt m = None" if "n \<le> m" "m < n'" for m
      using that ih None by (cases "m = n") auto
    with ih show ?thesis by auto
  next
    case (Some e)
    with Cons.prems show ?thesis by auto
  qed
qed

lemma insert_entries_transaction:
  assumes "insert_entries flt es (n, conn) = (eo, n', conn')" and "in_transaction conn"
  shows "in_transaction conn' \<and> committed conn' = committed conn"
  using assms
proof (induction es arbitrary: n conn)
  case Nil
  then show ?case by auto
next
  case (Cons a es)
  show ?case
  proof (cases "flt n")
    case None
    let ?c1 = "execute_write (insert_word (entry_representation a)) conn"
    obtain eo1 n1 c1 where
      w: "insert_wrappers flt (words_seq (working ?c1)) (entry_meaning_wrappers a) (Suc n, ?c1)
            = (eo1, n1, c1)"
      by (metis prod_cases3)
    from Cons.prems(2) have tx1: "in_transaction ?c1" and cm1: "committed ?c1 = committed conn"
      by (simp_all add: execute_write_def)
    from insert_wrappers_transaction [OF w tx1] cm1
    have c1: "in_transaction c1" "committed c1 = committed conn" by simp_all
    show ?thesis
    proof (cases eo1)
      case None' : None
      with Cons.prems(1) None w have "insert_entries flt es (n1, c1) = (eo, n', conn')"
        by (simp add: Let_def)
      from Cons.IH [OF this c1(1)] c1(2) show ?thesis by simp
    next
      case (Some e)
      with Cons.prems(1) None w have "conn' = c1" by (simp add: Let_def)
      with c1 show ?thesis by simp
    qed
  next
    case (Some e)
    with Cons.prems show ?thesis by auto
  qed
qed

lemma insert_entries_error:
  assumes "insert_entries flt es (n, conn) = (Some e, n', conn')"
  shows "flt n' = Some e \<and> n \<le> n' \<and> (\<forall>m. n \<le> m \<and> m < n' \<longrightarrow> flt m = None)"
  using assms
proof (induction es arbitrary: n conn)
  case Nil
  then show ?case by auto
next
  case (Cons a es)
  show ?case
  proof (cases "flt n")
    case None
    let ?c1 = "execute_write (insert_word (entry_representation a)) conn"
    obtain eo1 n1 c1 where
      w: "insert_wrappers flt (words_seq (working ?c1)) (entry_meaning_wrappers a) (Suc n, ?c1)
            = (eo1, n1, c1)"
      by (metis prod_cases3)
    show ?thesis
    proof (cases eo1)
      case None' : None
      with Cons.prems(1) None w have run: "insert_entries flt es (n1, c1) = (Some e, n', conn')"
        by (simp add: Let_def)
      have tail: "flt n' = Some e \<and> n1 \<le> n' \<and> (\<forall>m. n1 \<le> m \<and> m < n' \<longrightarrow> flt m = None)"
        using run by (rule Cons.IH)
      have head: "\<forall>m. Suc n \<le> m \<and> m < n1 \<longrightarrow> flt m = None" "Suc n \<le> n1"
        using w None' insert_wrappers_none_range by blast+
      have "flt m = None" if "n \<le> m" "m < n'" for m
      proof (cases "m = n")
        case True
        with None show ?thesis by simp
      next
        case False
        with that head tail show ?thesis by (cases "m < n1") auto
      qed
      with tail head show ?thesis by auto
    next
      case (Some e1)
      with Cons.prems(1) None w have eq: "e1 = e" "n1 = n'" by (simp_all add: Let_def)
      from w Some eq have "insert_wrappers flt (words_seq (working ?c1))
                             (entry_meaning_wrappers a) (Suc n, ?c1) = (Some e, n', c1)"
        by simp
      from insert_wrappers_error [OF this]
      have h: "flt n' = Some e" "Suc n \<le> n'" "\<forall>m. Suc n \<le> m \<and> m < n' \<longrightarrow> flt m = None"
        by simp_all
      have "flt m = None" if "n \<le> m" "m < n'" for m
        using that h None by (cases "m = n") auto
      with h show ?thesis by auto
    qed
  next
    case (Some e')
    with Cons.prems show ?thesis by auto
  qed
qed

lemma insert_entries_success:
  assumes "insert_entries flt es (n, conn) = (None, n', conn')" and "in_transaction conn"
  shows "n' = n + length es + length (concat (map entry_meaning_wrappers es)) \<and>
         (\<forall>m. n \<le> m \<and> m < n' \<longrightarrow> flt m = None) \<and>
         (\<exists>new_words new_wrappers.
            words (working conn') = words (working conn) @ new_words \<and>
            map representation_html new_words = map entry_representation es \<and>
            meaning_wrappers (working conn') = meaning_wrappers (working conn) @ new_wrappers \<and>
            map wrapper_html new_wrappers = concat (map entry_meaning_wrappers es) \<and>
            (\<forall>r \<in> set new_wrappers. mw_word_id r \<in> set (map w_id new_words)))"
  using assms
proof (induction es arbitrary: n conn)
  case Nil
  then show ?case by auto
next
  case (Cons a es)
  show ?case
  proof (cases "flt n")
    case None
    let ?i = "next_rowid (words_seq (working conn)) (map w_id (words (working conn)))"
    let ?w = "\<lparr>w_id = ?i, representation_html = entry_representation a\<rparr>"
    let ?c1 = "execute_write (insert_word (entry_representation a)) conn"
    from Cons.prems(2) have tx1: "in_transaction ?c1"
      and wk1: "words (working ?c1) = words (working conn) @ [?w]"
               "meaning_wrappers (working ?c1) = meaning_wrappers (working conn)"
               "words_seq (working ?c1) = ?i"
      by (simp_all add: execute_write_def insert_word_def Let_def)
    obtain eo1 n1 c1 where
      w: "insert_wrappers flt (words_seq (working ?c1)) (entry_meaning_wrappers a) (Suc n, ?c1)
            = (eo1, n1, c1)"
      by (metis prod_cases3)
    have eo1: "eo1 = None"
    proof (cases eo1)
      case (Some e)
      with Cons.prems(1) None w show ?thesis by (simp add: Let_def)
    qed simp
    with Cons.prems(1) None w have run: "insert_entries flt es (n1, c1) = (None, n', conn')"
      by (simp add: Let_def)
    from w eo1 have w': "insert_wrappers flt ?i (entry_meaning_wrappers a) (Suc n, ?c1)
                           = (None, n1, c1)"
      using wk1(3) by simp
    from insert_wrappers_success [OF w' tx1] obtain nm1 where
      s1: "n1 = Suc n + length (entry_meaning_wrappers a)"
          "\<forall>m. Suc n \<le> m \<and> m < n1 \<longrightarrow> flt m = None"
          "words (working c1) = words (working ?c1)"
          "meaning_wrappers (working c1) = meaning_wrappers (working ?c1) @ nm1"
          "map wrapper_html nm1 = entry_meaning_wrappers a"
          "\<forall>r \<in> set nm1. mw_word_id r = ?i"
      by blast
    from insert_wrappers_transaction [OF w' tx1] have tx2: "in_transaction c1" by simp
    from Cons.IH [OF run tx2] obtain nw2 nm2 where
      s2: "n' = n1 + length es + length (concat (map entry_meaning_wrappers es))"
          "\<forall>m. n1 \<le> m \<and> m < n' \<longrightarrow> flt m = None"
          "words (working conn') = words (working c1) @ nw2"
          "map representation_html nw2 = map entry_representation es"
          "meaning_wrappers (working conn') = meaning_wrappers (working c1) @ nm2"
          "map wrapper_html nm2 = concat (map entry_meaning_wrappers es)"
          "\<forall>r \<in> set nm2. mw_word_id r \<in> set (map w_id nw2)"
      by blast
    have count: "n' = n + length (a # es) + length (concat (map entry_meaning_wrappers (a # es)))"
      using s1(1) s2(1) by simp
    have none: "flt m = None" if "n \<le> m" "m < n'" for m
    proof (cases "m = n")
      case True
      with None show ?thesis by simp
    next
      case False
      with that s1(2) s2(2) show ?thesis by (cases "m < n1") auto
    qed
    have rows: "\<exists>new_words new_wrappers.
            words (working conn') = words (working conn) @ new_words \<and>
            map representation_html new_words = map entry_representation (a # es) \<and>
            meaning_wrappers (working conn') = meaning_wrappers (working conn) @ new_wrappers \<and>
            map wrapper_html new_wrappers = concat (map entry_meaning_wrappers (a # es)) \<and>
            (\<forall>r \<in> set new_wrappers. mw_word_id r \<in> set (map w_id new_words))"
      using s1(3-6) s2(3-7) wk1(1,2)
      by (intro exI [of _ "?w # nw2"] exI [of _ "nm1 @ nm2"]) auto
    from count none rows show ?thesis by blast
  next
    case (Some e)
    with Cons.prems show ?thesis by auto
  qed
qed

subsection \<open>The bulk insert as a whole\<close>

lemma store_extracted_results_cases:
  assumes "store_extracted_results flt db results = (r, db')"
  shows "(r = Inr () \<and>
          (\<forall>m < 5 + length (concat results)
                   + length (concat (map entry_meaning_wrappers (concat results))). flt m = None) \<and>
          (\<exists>new_words new_wrappers.
             words db' = words db @ new_words \<and>
             map representation_html new_words = map entry_representation (concat results) \<and>
             meaning_wrappers db' = meaning_wrappers db @ new_wrappers \<and>
             map wrapper_html new_wrappers = concat (map entry_meaning_wrappers (concat results)) \<and>
             (\<forall>r \<in> set new_wrappers. mw_word_id r \<in> set (map w_id new_words)))) \<or>
         (\<exists>e n. r = Inl e \<and> flt n = Some e \<and> (\<forall>m < n. flt m = None) \<and> db' = db)"
proof (cases "List.find (\<lambda>n. flt n \<noteq> None) [0, 1, 2, 3]")
  case (Some k)
  then obtain e where e: "flt k = Some e" and first: "\<forall>m < k. flt m = None"
    by (auto split: if_splits simp: less_Suc_eq numeral_2_eq_2 numeral_3_eq_3)
  from assms Some e have "r = Inl e" "db' = db"
    by (simp_all add: store_extracted_results_def connect_def rollback_def)
  with e first show ?thesis by blast
next
  case None
  then have pre: "\<forall>m < 4. flt m = None"
    by (auto split: if_splits simp: less_Suc_eq numeral_eq_Suc)
  let ?c = "begin_transaction (connect db)"
  have tx: "in_transaction ?c" and cm: "committed ?c = db" and wk: "working ?c = db"
    by (simp_all add: begin_transaction_def connect_def)
  obtain eo n' conn' where
    run: "insert_entries flt (concat results) (4, ?c) = (eo, n', conn')"
    by (metis prod_cases3)
  from insert_entries_transaction [OF run tx] cm have cm': "committed conn' = db" by simp
  show ?thesis
  proof (cases eo)
    case (Some e)
    with assms None run cm' have res: "r = Inl e" "db' = db"
      by (simp_all add: store_extracted_results_def rollback_def)
    from run Some have "insert_entries flt (concat results) (4, ?c) = (Some e, n', conn')"
      by simp
    from insert_entries_error [OF this]
    have h: "flt n' = Some e" "4 \<le> n'" "\<forall>m. 4 \<le> m \<and> m < n' \<longrightarrow> flt m = None"
      by simp_all
    have "flt m = None" if "m < n'" for m
      using that h(3) pre by (cases "m < 4") auto
    with res h(1) show ?thesis by blast
  next
    case None' : None
    with run have run': "insert_entries flt (concat results) (4, ?c) = (None, n', conn')"
      by simp
    from insert_entries_success [OF run' tx] wk obtain nw nm where
      s: "n' = 4 + length (concat results)
                 + length (concat (map entry_meaning_wrappers (concat results)))"
         "\<forall>m. 4 \<le> m \<and> m < n' \<longrightarrow> flt m = None"
         "words (working conn') = words db @ nw"
         "map representation_html nw = map entry_representation (concat results)"
         "meaning_wrappers (working conn') = meaning_wrappers db @ nm"
         "map wrapper_html nm = concat (map entry_meaning_wrappers (concat results))"
         "\<forall>r \<in> set nm. mw_word_id r \<in> set (map w_id nw)"
      by auto
    have before: "flt m = None" if "m < n'" for m
      using that s(2) pre by (cases "m < 4") auto
    show ?thesis
    proof (cases "flt n'")
      case (Some e)
      with assms None run' cm' have "r = Inl e" "db' = db"
        by (simp_all add: store_extracted_results_def rollback_def)
      with Some before show ?thesis by blast
    next
      case None'' : None
      with assms None run' have res: "r = Inr ()" "db' = working conn'"
        by (simp_all add: store_extracted_results_def commit_def)
      have "flt m = None"
        if "m < 5 + length (concat results)
                  + length (concat (map entry_meaning_wrappers (concat results)))" for m
        using that before None'' s(1) by (cases "m = n'") auto
      with res s(3-7) show ?thesis by blast
    qed
  qed
qed

lemmas store_eval_defs =
  store_extracted_results_def connect_def begin_transaction_def commit_def rollback_def
  execute_write_def insert_word_def insert_meaning_wrapper_def foreign_keys_def next_rowid_def
  Let_def

text \<open>
  Claim C6. \<^verbatim>\<open>store_extracted_results\<close> is atomic. Either it returns normally, no statement
  was refused, and every word and every gloss of the batch is in the store, in the order of
  the batch and after the rows that were there. Or it raises the error of the first refused
  statement, unchanged, and the store is what it was before the call.
\<close>

theorem store_extracted_results_atomic:
  assumes "store_extracted_results flt db results = (r, db')"
  shows "(r = Inr () \<and>
          (\<forall>m < 5 + length (concat results)
                   + length (concat (map entry_meaning_wrappers (concat results))). flt m = None) \<and>
          (\<exists>new_words new_wrappers.
             words db' = words db @ new_words \<and>
             map representation_html new_words = map entry_representation (concat results) \<and>
             meaning_wrappers db' = meaning_wrappers db @ new_wrappers \<and>
             map wrapper_html new_wrappers
               = concat (map entry_meaning_wrappers (concat results)))) \<or>
         (\<exists>e n. r = Inl e \<and> flt n = Some e \<and> (\<forall>m < n. flt m = None) \<and> db' = db)"
  using store_extracted_results_cases [OF assms] by blast

lemma disk_full_run:
  "store_extracted_results disk_full db0 batch0 = (Inl (DatabaseError 13), db0)"
  by (simp add: store_eval_defs disk_full_def db0_def batch0_def)

theorem store_extracted_results_atomic_witness:
  "store_extracted_results disk_full db0 batch0 = (Inl (DatabaseError 13), db0) \<and>
   (\<exists>n. disk_full n = Some (DatabaseError 13) \<and> (\<forall>m < n. disk_full m = None))"
  using store_extracted_results_atomic [OF disk_full_run] disk_full_run
  by auto






subsection \<open>What the scraper hands to the store\<close>

lemma descendants_trans:
  "x \<in> set (descendants y) \<Longrightarrow> y \<in> set (descendants z) \<Longrightarrow> x \<in> set (descendants z)"
proof (induction z rule: descendants.induct)
  case (1 t)
  then show ?case by simp
next
  case (2 name classes cs)
  from "2.prems"(2) obtain c where c: "c \<in> set cs" "y = c \<or> y \<in> set (descendants c)"
    by auto
  from c(2) have "x \<in> set (descendants c)"
  proof
    assume "y = c"
    with "2.prems"(1) show ?thesis by simp
  next
    assume "y \<in> set (descendants c)"
    with "2.IH" [OF c(1) "2.prems"(1)] show ?thesis .
  qed
  with c(1) show ?case by auto
qed

lemma set_map_filter_Some:
  "y \<in> set (List.map_filter f xs) \<longleftrightarrow> (\<exists>x \<in> set xs. f x = Some y)"
  by (induction xs) (auto simp: map_filter_simps split: option.splits)

lemma wrapper_html_of_sentence:
  "wrapper_html_of render parse wrapper = Some h \<Longrightarrow> has_sentence wrapper"
  by (simp add: wrapper_html_of_def split: if_splits)

lemma entry_of_wrappers:
  assumes "e \<in> set (entry_of render parse entry)" and "h \<in> set (entry_meaning_wrappers e)"
  shows "\<exists>wrapper \<in> set (descendants entry).
           named ''div'' wrapper \<and> has_class ''meaning-wrapper'' wrapper \<and>
           wrapper_html_of render parse wrapper = Some h"
proof -
  from assms(1) have
    "entry_meaning_wrappers e =
       List.map_filter (wrapper_html_of render parse)
         (find_all (\<lambda>n. named ''div'' n \<and> has_class ''meaning-wrapper'' n) entry)"
    by (auto simp: entry_of_def Let_def split: option.splits if_splits)
  with assms(2) show ?thesis
    by (auto simp: set_map_filter_Some find_all_def)
qed

lemma extracted_wrappers_have_sentences:
  assumes "e \<in> set (extract_words_with_sentences render parse soup)"
    and "h \<in> set (entry_meaning_wrappers e)"
  shows "\<exists>wrapper \<in> set (descendants soup).
           named ''div'' wrapper \<and> has_class ''meaning-wrapper'' wrapper \<and>
           has_sentence wrapper \<and> wrapper_html_of render parse wrapper = Some h"
proof -
  from assms(1) obtain entry where
    entry: "entry \<in> set (descendants soup)" "e \<in> set (entry_of render parse entry)"
    by (auto simp: extract_words_with_sentences_def find_all_def)
  from entry_of_wrappers [OF entry(2) assms(2)] obtain wrapper where
    w: "wrapper \<in> set (descendants entry)" "named ''div'' wrapper"
       "has_class ''meaning-wrapper'' wrapper" "wrapper_html_of render parse wrapper = Some h"
    by blast
  from descendants_trans [OF w(1) entry(1)] w(2-4) wrapper_html_of_sentence [OF w(4)]
  show ?thesis by blast
qed

text \<open>
  Claim C8. Every gloss that a scrape-and-store pass adds to the store comes from a
  \<^verbatim>\<open>meaning-wrapper\<close> element of a scraped page that contains a sentence block; a wrapper without
  one yields no row.
\<close>

theorem persisted_glosses_have_sentences:
  assumes "store_extracted_results flt db
             (map (extract_words_with_sentences render parse) soups) = (r, db')"
    and "row \<in> set (meaning_wrappers db')"
  shows "row \<in> set (meaning_wrappers db) \<or>
         (\<exists>soup \<in> set soups. \<exists>wrapper \<in> set (descendants soup).
            named ''div'' wrapper \<and> has_class ''meaning-wrapper'' wrapper \<and>
            has_sentence wrapper \<and>
            wrapper_html_of render parse wrapper = Some (wrapper_html row))"
proof (cases "row \<in> set (meaning_wrappers db)")
  case True
  then show ?thesis by simp
next
  case False
  let ?results = "map (extract_words_with_sentences render parse) soups"
  from store_extracted_results_cases [OF assms(1)] assms(2) False obtain nm where
    nm: "meaning_wrappers db' = meaning_wrappers db @ nm"
        "map wrapper_html nm = concat (map entry_meaning_wrappers (concat ?results))"
    by auto
  from nm(1) assms(2) False have "row \<in> set nm" by simp
  then have "wrapper_html row \<in> set (map wrapper_html nm)" by simp
  with nm(2) obtain e soup where
    e: "soup \<in> set soups" "e \<in> set (extract_words_with_sentences render parse soup)"
       "wrapper_html row \<in> set (entry_meaning_wrappers e)"
    by auto
  from extracted_wrappers_have_sentences [OF e(2,3)] e(1) show ?thesis by blast
qed

lemma page0_extracted:
  "map (extract_words_with_sentences example_render example_parse) [page0] =
     [[\<lparr>entry_representation = [35501],
        entry_meaning_wrappers = [[114, 101, 97, 100, 101, 120]]\<rparr>]]"
  by (simp add: extract_words_with_sentences_def entry_of_def wrapper_html_of_def
        has_sentence_def clean_wrapper_def remove_newlines_def example_render_def
        example_parse_def page0_def find_first_def find_all_def get_text_def
        map_filter_simps Let_def)

lemma page0_run:
  "store_extracted_results no_faults db0
     (map (extract_words_with_sentences example_render example_parse) [page0])
   = (Inr (), db0_after_page0)"
  unfolding page0_extracted
  by (simp add: store_eval_defs no_faults_def db0_def db0_after_page0_def)

lemma page0_row:
  "\<lparr>mw_id = 2, mw_word_id = 2, wrapper_html = [114, 101, 97, 100, 101, 120]\<rparr>
     \<in> set (meaning_wrappers db0_after_page0)"
  by (simp add: db0_after_page0_def)

theorem persisted_glosses_have_sentences_witness:
  "store_extracted_results no_faults db0
     (map (extract_words_with_sentences example_render example_parse) [page0])
     = (Inr (), db0_after_page0) \<and>
   \<lparr>mw_id = 2, mw_word_id = 2, wrapper_html = [114, 101, 97, 100, 101, 120]\<rparr>
     \<in> set (meaning_wrappers db0_after_page0) \<and>
   (\<exists>wrapper \<in> set (descendants page0).
      has_sentence wrapper \<and>
      wrapper_html_of example_render example_parse wrapper
        = Some [114, 101, 97, 100, 101, 120])"
  using persisted_glosses_have_sentences [OF page0_run page0_row] page0_run page0_row
  by (auto simp: db0_def)

section \<open>Properties of the daily selection\<close>

subsection \<open>Sorting with keys that do not collide\<close>










subsection \<open>The parts of the query\<close>










subsection \<open>The size of the selection\<close>






lemma pk_ok_store5: "pk_ok store5"
  by (simp add: pk_ok_def store5_def word5_def gloss5_def)

lemma fk_ok_store5: "fk_ok store5"
  by (simp add: fk_ok_def store5_def word5_def gloss5_def)

lemma wf_store5: "wf_store store5"
  by (simp add: wf_store_def pk_ok_store5 fk_ok_store5)

lemma word_ids_store5: "card (set (map mw_word_id (meaning_wrappers store5))) = 5"
  by (simp add: store5_def gloss5_def)



subsection \<open>Where sort keys cannot collide\<close>

lemma digit_char_inj:
  assumes "m < 10" and "n < 10" and "''0123456789'' ! m = ''0123456789'' ! n"
  shows "m = n"
proof -
  have "distinct ''0123456789''" by simp
  moreover have "m < length ''0123456789''" "n < length ''0123456789''"
    using assms(1,2) by simp_all
  ultimately show ?thesis using assms(3) by (simp only: nth_eq_iff_index_eq)
qed

lemma digits_of_not_Nil: "digits_of n \<noteq> []"
  by (subst digits_of.simps) simp

lemma digits_of_inj: "digits_of m = digits_of n \<Longrightarrow> m = n"
proof (induction m arbitrary: n rule: digits_of.induct)
  case (1 m)
  show ?case
  proof (cases "m < 10")
    case True
    then have dm: "digits_of m = [''0123456789'' ! m]"
      by (subst digits_of.simps) simp
    show ?thesis
    proof (cases "n < 10")
      case n: True
      then have "digits_of n = [''0123456789'' ! n]"
        by (subst digits_of.simps) simp
      with dm "1.prems" have "''0123456789'' ! m = ''0123456789'' ! n" by simp
      with True n show ?thesis by (rule digit_char_inj)
    next
      case False
      then have "digits_of n = digits_of (n div 10) @ [''0123456789'' ! (n mod 10)]"
        by (subst digits_of.simps) simp
      with dm "1.prems" digits_of_not_Nil [of "n div 10"] show ?thesis
        by (cases "digits_of (n div 10)") simp_all
    qed
  next
    case False
    then have dm: "digits_of m = digits_of (m div 10) @ [''0123456789'' ! (m mod 10)]"
      by (subst digits_of.simps) simp
    show ?thesis
    proof (cases "n < 10")
      case True
      then have "digits_of n = [''0123456789'' ! n]"
        by (subst digits_of.simps) simp
      with dm "1.prems" digits_of_not_Nil [of "m div 10"] show ?thesis
        by (cases "digits_of (m div 10)") simp_all
    next
      case n: False
      then have "digits_of n = digits_of (n div 10) @ [''0123456789'' ! (n mod 10)]"
        by (subst digits_of.simps) simp
      with dm "1.prems" have eq: "digits_of (m div 10) = digits_of (n div 10)"
        "''0123456789'' ! (m mod 10) = ''0123456789'' ! (n mod 10)"
        by simp_all
      from "1.IH" [OF False eq(1)] have "m div 10 = n div 10" .
      moreover from eq(2) have "m mod 10 = n mod 10"
        by (intro digit_char_inj) simp_all
      ultimately show ?thesis by (metis div_mult_mod_eq)
    qed
  qed
qed

lemma digits_of_length: "n < 10 ^ k \<Longrightarrow> 0 < k \<Longrightarrow> length (digits_of n) \<le> k"
proof (induction n arbitrary: k rule: digits_of.induct)
  case (1 n)
  show ?case
  proof (cases "n < 10")
    case True
    then have "digits_of n = [''0123456789'' ! n]"
      by (subst digits_of.simps) simp
    with "1.prems"(2) show ?thesis by simp
  next
    case False
    then have dn: "digits_of n = digits_of (n div 10) @ [''0123456789'' ! (n mod 10)]"
      by (subst digits_of.simps) simp
    obtain j where k: "k = Suc j" using "1.prems"(2) by (cases k) auto
    with "1.prems"(1) have small: "n div 10 < 10 ^ j"
      by (simp add: less_mult_imp_div_less mult.commute)
    have "0 < j"
    proof (rule ccontr)
      assume "\<not> 0 < j"
      with k "1.prems"(1) False show False by simp
    qed
    from "1.IH" [OF False small this] dn k show ?thesis by simp
  qed
qed

lemma substr_key_small:
  assumes "0 \<le> i" and "i * int seed < 10 ^ 15"
  shows "substr_key seed i = digits_of (nat (i * int seed))"
proof -
  from assms(1) have nonneg: "0 \<le> i * int seed" by simp
  from assms(2) nonneg have "nat (i * int seed) < 10 ^ 15"
    by (simp add: nat_less_iff)
  then have "length (digits_of (nat (i * int seed))) \<le> 15"
    by (rule digits_of_length) simp
  with nonneg show ?thesis by (simp add: substr_key_def sql_text_def)
qed

lemma substr_key_inj_small:
  assumes "0 < seed" and "0 \<le> i" and "0 \<le> j"
    and "i * int seed < 10 ^ 15" and "j * int seed < 10 ^ 15"
    and "substr_key seed i = substr_key seed j"
  shows "i = j"
proof -
  from assms(2-6) have "digits_of (nat (i * int seed)) = digits_of (nat (j * int seed))"
    by (simp add: substr_key_small)
  then have "nat (i * int seed) = nat (j * int seed)" by (rule digits_of_inj)
  with assms(2,3) have "i * int seed = j * int seed"
    by (simp add: nat_eq_iff)
  with assms(1) show ?thesis by simp
qed

text \<open>
  A seed other than 0 has no collision on a store whose ids, multiplied by the seed, stay
  below \<open>10 ^ 15\<close>: the sort key is then the whole decimal text of the product.
\<close>

lemma collision_free_small_products:
  assumes "pk_ok s" and "0 < seed"
    and "\<forall>m \<in> set (meaning_wrappers s).
           mw_id m * int seed < 10 ^ 15 \<and> mw_word_id m * int seed < 10 ^ 15"
  shows "collision_free seed s"
proof -
  from assms(1) have pos: "\<forall>m \<in> set (meaning_wrappers s). 0 \<le> mw_id m \<and> 0 \<le> mw_word_id m"
    by (auto simp: pk_ok_def list_all_iff)
  have "inj_on (substr_key seed) (set (map mw_word_id (meaning_wrappers s)))"
    using pos assms(2,3) by (auto intro!: inj_onI substr_key_inj_small)
  moreover have "inj_on (substr_key seed) (set (map mw_id (meaning_wrappers s)))"
    using pos assms(2,3) by (auto intro!: inj_onI substr_key_inj_small)
  ultimately show ?thesis
    by (simp add: collision_free_def distinct_map)
qed

subsection \<open>Determinism\<close>























section \<open>Properties of the offset mode\<close>

lemma get_all_words_length:
  assumes "fk_ok s"
  shows "card (set (map mw_word_id (meaning_wrappers s))) \<le> length (get_all_words s)"
proof -
  let ?J = "[(mw, w). mw \<leftarrow> meaning_wrappers s, w \<leftarrow> words s, mw_word_id mw = w_id w]"
  have "set (map mw_word_id (meaning_wrappers s)) \<subseteq> (\<lambda>r. mw_word_id (fst r)) ` set ?J"
  proof
    fix p
    assume "p \<in> set (map mw_word_id (meaning_wrappers s))"
    then obtain mw where mw: "mw \<in> set (meaning_wrappers s)" "mw_word_id mw = p" by auto
    with assms obtain w where "w \<in> set (words s)" "w_id w = p"
      by (auto simp: fk_ok_def list_all_iff)
    with mw have "(mw, w) \<in> set ?J" by simp
    with mw(2) show "p \<in> (\<lambda>r. mw_word_id (fst r)) ` set ?J" by force
  qed
  then have "card (set (map mw_word_id (meaning_wrappers s)))
               \<le> card ((\<lambda>r. mw_word_id (fst r)) ` set ?J)"
    by (intro card_mono) simp_all
  also have "\<dots> \<le> card (set ?J)" by (intro card_image_le) simp
  also have "\<dots> \<le> length ?J" by (rule card_length)
  finally show ?thesis by (simp add: get_all_words_def)
qed

lemma sampler_ok_example: "sampler_ok example_sampler"
  by (simp add: sampler_ok_def example_sampler_def)

text \<open>
  Claim C2, as the code has it. The two modes do not derive the same seed: for the date
  2024-01-01 the batch mode uses 1884493844, from SHA-256 modulo \<open>2 ^ 31\<close>, and the offset
  mode uses 730403084, from MD5 modulo \<open>2 ^ 32\<close>.
\<close>

theorem offset_mode_seed_differs:
  "date_seed ''2024-01-01'' = 1884493844 \<and> word_date_seed ''2024-01-01'' = 730403084 \<and>
   date_seed ''2024-01-01'' \<noteq> word_date_seed ''2024-01-01''"
  by (simp add: date_seed_2024_01_01 word_date_seed_2024_01_01)

text \<open>
  Claim C2, amended. Over a store in which every gloss belongs to a word and at least four
  words have a gloss, \<^verbatim>\<open>generate_word_date\<close> succeeds for every date string and offset: it
  seeds the generator with the MD5 seed of the date, draws four positions in the list of all
  gloss rows ordered by word id and gloss id, and selects the row at the drawn position
  number \<open>offset mod 4\<close>, so that offsets that differ by 4 select the same row. That row is
  a gloss of the store; it is not tied to the batch selection.
\<close>

theorem generate_word_date_selects_a_gloss:
  assumes "sampler_ok smp" and "wf_store s"
    and "4 \<le> card (set (map mw_word_id (meaning_wrappers s)))"
  shows "\<exists>i < length (get_all_words s).
           i = smp (word_date_seed date_str) (length (get_all_words s)) 4 ! nat (offset mod 4) \<and>
           generate_word_date smp s date_str offset = Inr (get_all_words s ! i) \<and>
           generate_word_date smp s date_str (offset + 4) = Inr (get_all_words s ! i)"
proof -
  let ?data = "get_all_words s"
  let ?idx = "smp (word_date_seed date_str) (length ?data) 4"
  let ?j = "nat (offset mod 4)"
  from assms(2) have "fk_ok s" by (simp add: wf_store_def)
  from get_all_words_length [OF this] assms(3) have n: "4 \<le> length ?data" by simp
  with assms(1) have idx: "length ?idx = 4" "\<forall>i \<in> set ?idx. i < length ?data"
    by (simp_all add: sampler_ok_def)
  have j: "?j < 4" by simp
  with idx have i: "?idx ! ?j < length ?data" by (metis nth_mem)
  have same: "nat ((offset + 4) mod 4) = ?j" by simp
  from n have sample: "random_sample smp (word_date_seed date_str) ?data 4
                         = Inr (map (\<lambda>i. ?data ! i) ?idx)"
    by (simp add: random_sample_def)
  have "generate_word_date smp s date_str offset = Inr (?data ! (?idx ! ?j))"
    using sample idx(1) j by (simp add: generate_word_date_def Let_def)
  moreover have "generate_word_date smp s date_str (offset + 4) = Inr (?data ! (?idx ! ?j))"
    using sample idx(1) j same by (simp add: generate_word_date_def Let_def)
  ultimately show ?thesis using i by blast
qed

lemma four_words_store5: "4 \<le> card (set (map mw_word_id (meaning_wrappers store5)))"
  unfolding word_ids_store5 by simp

theorem generate_word_date_selects_a_gloss_witness:
  "sampler_ok example_sampler \<and> wf_store store5 \<and>
   4 \<le> card (set (map mw_word_id (meaning_wrappers store5))) \<and>
   (\<exists>i < length (get_all_words store5).
      generate_word_date example_sampler store5 ''2024-01-01'' 6 = Inr (get_all_words store5 ! i))"
  using generate_word_date_selects_a_gloss
          [OF sampler_ok_example wf_store5 four_words_store5, of "''2024-01-01''" 6]
        sampler_ok_example wf_store5 four_words_store5
  by blast

end
